theory Spec2Isabelle
  imports Complex_Main "HOL-Library.Sublist"
begin

section \<open>Python lists and errors\<close>

text \<open>
  The only exception the traversal code of \<^verbatim>\<open>focnet.py\<close> can raise by itself is the
  \<^verbatim>\<open>IndexError\<close> of an out-of-range list access. Python accepts negative indices
  (counted from the end); an index outside \<open>-len .. len-1\<close> raises.
\<close>

datatype error = IndexError

definition py_norm :: "nat \<Rightarrow> int \<Rightarrow> nat option" where
  "py_norm n i =
     (if 0 \<le> i \<and> i < int n then Some (nat i)
      else if - int n \<le> i \<and> i < 0 then Some (nat (int n + i))
      else None)"

definition py_index :: "'a list \<Rightarrow> int \<Rightarrow> error + 'a" where
  "py_index xs i = (case py_norm (length xs) i of None \<Rightarrow> Inl IndexError | Some j \<Rightarrow> Inr (xs ! j))"

definition py_len :: "'a list \<Rightarrow> int" where
  "py_len xs = int (length xs)"

section \<open>The residual weights\<close>

text \<open>
  \<^verbatim>\<open>
  def residual_weights_computation(t, beta):
      w = [beta]
      for k in range(t-1, 0, -1):
          w_k = (1 - (1 + beta) / (t - k + 1)) * w[-1]
          w.append(w_k)
      w = w[::-1]
      return w
  \<close>
  The weights are taken as exact rationals. \<open>range(t-1, 0, -1)\<close> is \<open>t-1, t-2, \<dots>, 1\<close>, so the
  divisor \<open>t - k + 1\<close> runs through \<open>2, \<dots>, t\<close> and is never zero; \<open>w\<close> is never empty, so
  \<open>w[-1]\<close> is its last element.
\<close>

definition weight_step :: "int \<Rightarrow> rat \<Rightarrow> int \<Rightarrow> rat list \<Rightarrow> rat list" where
  "weight_step t beta k w = w @ [(1 - (1 + beta) / of_int (t - k + 1)) * last w]"

definition residual_weights_computation :: "int \<Rightarrow> rat \<Rightarrow> rat list" where
  "residual_weights_computation t beta = rev (fold (weight_step t beta) (rev [1..t - 1]) [beta])"

section \<open>The dependency mapping\<close>

text \<open>
  \<^verbatim>\<open>
  def build_needs_to_compute(self):
      for i_scale, scale_communication in enumerate(self.communications_between_scales):
          down = True
          for i_conv_scale_up, i_conv_scale_down in scale_communication:
              scale_up_node = (i_scale, i_conv_scale_up)
              scale_down_node = (i_scale + 1, i_conv_scale_down)
              if down:
                  self.needs_to_compute[scale_down_node] = scale_up_node
              else:
                  self.needs_to_compute[scale_up_node] = scale_down_node
              down = not down
  \<close>
\<close>

type_synonym node = "int \<times> int"
type_synonym needs = "node \<rightharpoonup> node"

fun scale_communication_loop :: "int \<Rightarrow> (int \<times> int) list \<Rightarrow> bool \<Rightarrow> needs \<Rightarrow> needs" where
  "scale_communication_loop i_scale [] down m = m"
| "scale_communication_loop i_scale ((i_conv_scale_up, i_conv_scale_down) # rest) down m =
     (let scale_up_node = (i_scale, i_conv_scale_up);
          scale_down_node = (i_scale + 1, i_conv_scale_down)
      in scale_communication_loop i_scale rest (\<not> down)
           (if down then m(scale_down_node \<mapsto> scale_up_node)
            else m(scale_up_node \<mapsto> scale_down_node)))"

definition build_needs_to_compute :: "(int \<times> int) list list \<Rightarrow> needs \<Rightarrow> needs" where
  "build_needs_to_compute communications m =
     fold (\<lambda>(i_scale, scale_communication). scale_communication_loop (int i_scale) scale_communication True)
       (enumerate 0 communications) m"

text \<open>
  The construction in the words of the specification: the pair at position \<open>j\<close> of the list
  between scales \<open>s\<close> and \<open>s+1\<close> is a downscale pair when \<open>j\<close> is even (the direction flag starts
  at downscale and flips after every pair); a downscale pair records
  \<open>(s+1, step_lower) \<rightarrow> (s, step_upper)\<close>, the other ones \<open>(s, step_upper) \<rightarrow> (s+1, step_lower)\<close>.
  A later record for the same receiving coordinate replaces an earlier one.
\<close>

definition dependency_edge :: "int \<Rightarrow> nat \<Rightarrow> int \<times> int \<Rightarrow> node \<times> node" where
  "dependency_edge s j p =
     (if even j then ((s + 1, snd p), (s, fst p)) else ((s, fst p), (s + 1, snd p)))"

definition dependency_edges :: "(int \<times> int) list list \<Rightarrow> (node \<times> node) list" where
  "dependency_edges communications =
     concat (map (\<lambda>(s, l). map (\<lambda>(j, p). dependency_edge (int s) j p) (enumerate 0 l))
                 (enumerate 0 communications))"

definition dependency_graph :: "(int \<times> int) list list \<Rightarrow> needs" where
  "dependency_graph communications = map_of (rev (dependency_edges communications))"

definition DEFAULT_N_CONVS_PER_SCALE :: "int list" where
  "DEFAULT_N_CONVS_PER_SCALE = [5, 11, 11, 7]"

definition DEFAULT_COMMUNICATION_BETWEEN_SCALES :: "(int \<times> int) list list" where
  "DEFAULT_COMMUNICATION_BETWEEN_SCALES =
     [[(1, 0), (1, 2), (2, 3), (2, 5), (3, 6), (3, 8), (4, 9), (4, 11)],
      [(1, 0), (1, 2), (4, 3), (4, 5), (7, 6), (7, 8), (10, 9), (10, 11)],
      [(1, 0), (1, 1), (4, 2), (4, 3), (7, 4), (7, 5), (10, 6), (10, 7)]]"

section \<open>The network object\<close>

text \<open>
  The learned layers and the tensor arithmetic are external (Keras and TensorFlow). They are
  parameters of the model: a record of total functions on an arbitrary type \<open>'f\<close> of feature
  tensors. \<open>conv_block ops (s, t)\<close> is the \<^verbatim>\<open>FocConvBlock\<close> instance built at position
  \<open>t\<close> of the list for scale \<open>s\<close>; \<open>tf_add\<close> and \<open>tf_mul\<close> are \<^verbatim>\<open>+\<close> and \<^verbatim>\<open>*\<close> in
  \<^verbatim>\<open>new_feature + weight * res_feature\<close>, \<open>tf_concat a b\<close> is \<^verbatim>\<open>tf.concat([a, b], axis=-1)\<close>.
\<close>

record 'f tf_ops =
  first_conv :: "'f \<Rightarrow> 'f"
  conv_block :: "nat \<times> nat \<Rightarrow> 'f \<Rightarrow> 'f"
  final_conv :: "'f \<Rightarrow> 'f"
  pooling :: "'f \<Rightarrow> 'f"
  unpooling :: "'f \<Rightarrow> 'f"
  tf_concat :: "'f \<Rightarrow> 'f \<Rightarrow> 'f"
  tf_add :: "'f \<Rightarrow> 'f \<Rightarrow> 'f"
  tf_mul :: "rat \<Rightarrow> 'f \<Rightarrow> 'f"

record focnet =
  n_scales :: int
  n_filters :: int
  kernel_size :: int
  n_convs_per_scale :: "int list"
  communications_between_scales :: "(int \<times> int) list list"
  beta :: rat
  needs_to_compute :: needs

text \<open>
  \<^verbatim>\<open>__init__\<close> stores its arguments, builds the layers and calls
  \<^verbatim>\<open>build_needs_to_compute\<close> on the empty dictionary. No statement of it compares, asserts
  or raises.
\<close>

definition FocNet_init ::
  "int \<Rightarrow> int \<Rightarrow> int \<Rightarrow> int list \<Rightarrow> (int \<times> int) list list \<Rightarrow> rat \<Rightarrow> error + focnet" where
  "FocNet_init n_scales0 n_filters0 kernel_size0 n_convs_per_scale0 communications0 beta0 =
     Inr \<lparr>n_scales = n_scales0, n_filters = n_filters0, kernel_size = kernel_size0,
          n_convs_per_scale = n_convs_per_scale0,
          communications_between_scales = communications0, beta = beta0,
          needs_to_compute = build_needs_to_compute communications0 Map.empty\<rparr>"

text \<open>
  \<^verbatim>\<open>
  self.conv_blocks_per_scale = [
      [FocConvBlock(...) for _ in range(n_conv_blocks)]
      for n_conv_blocks in self.n_convs_per_scale
  ]
  \<close>
  Every block is a fresh instance; an instance is named by the position it was built at.
\<close>

definition conv_blocks_per_scale :: "focnet \<Rightarrow> (nat \<times> nat) list list" where
  "conv_blocks_per_scale m =
     map (\<lambda>(s, n_conv_blocks). map (\<lambda>t. (s, t)) [0..<nat n_conv_blocks])
         (enumerate 0 (n_convs_per_scale m))"

section \<open>The scheduler loop of \<^verbatim>\<open>FocNet.call\<close>\<close>

text \<open>
  The state of the loop is \<open>i_scale\<close>, \<open>i_feature\<close> and \<open>features_per_scale\<close>. Two more
  fields observe the run without influencing it: \<open>iterations\<close> counts the entries into the
  loop body, and \<open>conv_calls\<close> lists, for every invocation of a block at line 158, the
  instance invoked, the values of \<open>i_scale\<close> and \<open>i_feature\<close> and the length of
  \<open>features_per_scale[i_scale]\<close> at that moment.
\<close>

record 'f state =
  i_scale :: int
  i_feature :: int
  features_per_scale :: "'f list list"
  iterations :: nat
  conv_calls :: "((nat \<times> nat) \<times> int \<times> int \<times> int) list"

definition ebind :: "error + 'a \<Rightarrow> ('a \<Rightarrow> error + 'b) \<Rightarrow> error + 'b" where
  "ebind r f = (case r of Inl e \<Rightarrow> Inl e | Inr x \<Rightarrow> f x)"

definition list_append_at :: "'a list list \<Rightarrow> int \<Rightarrow> 'a \<Rightarrow> error + 'a list list" where
  \<comment> \<open>\<^verbatim>\<open>xss[i].append(x)\<close>\<close>
  "list_append_at xss i x =
     (case py_norm (length xss) i of
        None \<Rightarrow> Inl IndexError
      | Some j \<Rightarrow> Inr (xss[j := xss ! j @ [x]]))"

text \<open>
  Lines 158 to 168: the block of the current coordinate is applied to \<open>feature\<close>, the weighted
  features of \<open>zip(weights, features_per_scale[i_scale])\<close> are added one after the other, the
  result is appended and \<open>i_feature\<close> advances.
\<close>

definition compute_feature :: "'f tf_ops \<Rightarrow> focnet \<Rightarrow> 'f state \<Rightarrow> 'f \<Rightarrow> error + 'f state" where
  "compute_feature ops m st feature =
     ebind (py_index (conv_blocks_per_scale m) (i_scale st)) (\<lambda>blocks.
     ebind (py_index blocks (i_feature st)) (\<lambda>block.
     ebind (py_index (features_per_scale st) (i_scale st)) (\<lambda>fs.
       let new_feature = conv_block ops block feature;
           weights = residual_weights_computation (i_feature st) (beta m);
           new_feature = fold (\<lambda>(weight, res_feature) acc. tf_add ops acc (tf_mul ops weight res_feature))
                              (zip weights fs) new_feature
       in ebind (list_append_at (features_per_scale st) (i_scale st) new_feature) (\<lambda>fps.
            Inr (st\<lparr>features_per_scale := fps,
                    i_feature := i_feature st + 1,
                    conv_calls := conv_calls st @ [(block, i_scale st, i_feature st, py_len fs)]\<rparr>)))))"

text \<open>Lines 113 to 115: a scale whose steps are used up hands over to the scale above.\<close>

definition overflow_check :: "focnet \<Rightarrow> 'f state \<Rightarrow> error + 'f state" where
  "overflow_check m st =
     ebind (py_index (n_convs_per_scale m) (i_scale st)) (\<lambda>n.
       if i_feature st \<ge> n then
         ebind (py_index (features_per_scale st) (i_scale st - 1)) (\<lambda>fs.
           Inr (st\<lparr>i_scale := i_scale st - 1, i_feature := py_len fs - 1\<rparr>))
       else Inr st)"

text \<open>
  Lines 116 to 168: the dependency of the current coordinate is looked up. An unresolved
  dependency ends the pass with the jump target as the next state (the \<^verbatim>\<open>continue\<close> of
  line 130); otherwise the input feature is put together and the block is computed.
\<close>

definition resolve_and_compute :: "'f tf_ops \<Rightarrow> focnet \<Rightarrow> 'f state \<Rightarrow> error + 'f state" where
  "resolve_and_compute ops m st =
     (case needs_to_compute m (i_scale st, i_feature st) of
        None \<Rightarrow>
          ebind (py_index (features_per_scale st) (i_scale st)) (\<lambda>fs.
          ebind (py_index fs (- 1)) (\<lambda>feature.
            compute_feature ops m st feature))
      | Some (i_scale_to_compute, i_feature_to_compute) \<Rightarrow>
          ebind (py_index (features_per_scale st) i_scale_to_compute) (\<lambda>fs_to_compute.
            let n_features_scale_to_compute = py_len fs_to_compute in
            if n_features_scale_to_compute \<le> i_feature_to_compute then
              Inr (st\<lparr>i_scale := i_scale_to_compute,
                      i_feature := max (n_features_scale_to_compute - 1) 0\<rparr>)
            else
              ebind (py_index fs_to_compute i_feature_to_compute) (\<lambda>additional_feature.
                let additional_feature_processed =
                      (if i_scale_to_compute > i_scale st then unpooling ops additional_feature
                       else pooling ops additional_feature)
                in ebind (py_index (features_per_scale st) (i_scale st)) (\<lambda>fs.
                     if py_len fs = 0 then
                       ebind (list_append_at (features_per_scale st) (i_scale st)
                                additional_feature_processed) (\<lambda>fps.
                         compute_feature ops m (st\<lparr>features_per_scale := fps\<rparr>)
                           additional_feature_processed)
                     else
                       ebind (py_index fs (i_feature st)) (\<lambda>current.
                         compute_feature ops m st
                           (tf_concat ops current additional_feature_processed))))))"

text \<open>One pass through the loop body, lines 113 to 168.\<close>

definition loop_body :: "'f tf_ops \<Rightarrow> focnet \<Rightarrow> 'f state \<Rightarrow> error + 'f state" where
  "loop_body ops m st =
     ebind (overflow_check m (st\<lparr>iterations := Suc (iterations st)\<rparr>)) (resolve_and_compute ops m)"

text \<open>
  The loop condition \<^verbatim>\<open>i_scale != 0 or i_feature < self.n_convs_per_scale[0]\<close>; the right
  operand is evaluated only when the left one is false.
\<close>

definition loop_cond :: "focnet \<Rightarrow> 'f state \<Rightarrow> error + bool" where
  "loop_cond m st =
     (if i_scale st \<noteq> 0 then Inr True
      else ebind (py_index (n_convs_per_scale m) 0) (\<lambda>n. Inr (i_feature st < n)))"

text \<open>
  The \<^verbatim>\<open>while\<close> loop. Nothing bounds the number of its iterations, so it is a partial
  function: \<open>None\<close> is a loop that never ends, \<open>Some (Inl e)\<close> an exception, \<open>Some (Inr st)\<close>
  the state in which the condition is false.
\<close>

partial_function (option) call_loop :: "'f tf_ops \<Rightarrow> focnet \<Rightarrow> 'f state \<Rightarrow> (error + 'f state) option" where
  "call_loop ops m st =
     (case loop_cond m st of
        Inl e \<Rightarrow> Some (Inl e)
      | Inr go_on \<Rightarrow>
          if go_on then
            (case loop_body ops m st of
               Inl e \<Rightarrow> Some (Inl e)
             | Inr st' \<Rightarrow> call_loop ops m st')
          else Some (Inr st))"

text \<open>The same loop cut off after \<open>n\<close> tests of the condition; \<open>None\<close> is "not finished yet".\<close>

fun call_loop_upto :: "nat \<Rightarrow> 'f tf_ops \<Rightarrow> focnet \<Rightarrow> 'f state \<Rightarrow> (error + 'f state) option" where
  "call_loop_upto 0 ops m st = None"
| "call_loop_upto (Suc n) ops m st =
     (case loop_cond m st of
        Inl e \<Rightarrow> Some (Inl e)
      | Inr go_on \<Rightarrow>
          if go_on then
            (case loop_body ops m st of
               Inl e \<Rightarrow> Some (Inl e)
             | Inr st' \<Rightarrow> call_loop_upto n ops m st')
          else Some (Inr st))"

text \<open>Lines 108 to 111: the stores, one empty list per scale, the stem, the start coordinate.\<close>

definition initial_state :: "'f tf_ops \<Rightarrow> focnet \<Rightarrow> 'f \<Rightarrow> error + 'f state" where
  "initial_state ops m inputs =
     ebind (list_append_at (replicate (nat (n_scales m)) []) 0 (first_conv ops inputs)) (\<lambda>fps.
       Inr \<lparr>i_scale = 0, i_feature = 0, features_per_scale = fps,
            iterations = 0, conv_calls = []\<rparr>)"

definition call_states :: "'f tf_ops \<Rightarrow> focnet \<Rightarrow> 'f \<Rightarrow> (error + 'f state) option" where
  \<comment> \<open>the state of \<^verbatim>\<open>call\<close> when the loop is left\<close>
  "call_states ops m inputs =
     (case initial_state ops m inputs of
        Inl e \<Rightarrow> Some (Inl e)
      | Inr st \<Rightarrow> call_loop ops m st)"

text \<open>Line 169: \<^verbatim>\<open>self.final_conv(features_per_scale[0][self.n_convs_per_scale[0]])\<close>.\<close>

definition final_projection :: "'f tf_ops \<Rightarrow> focnet \<Rightarrow> 'f state \<Rightarrow> error + 'f" where
  "final_projection ops m st =
     ebind (py_index (features_per_scale st) 0) (\<lambda>fs.
     ebind (py_index (n_convs_per_scale m) 0) (\<lambda>n.
     ebind (py_index fs n) (\<lambda>feature.
       Inr (final_conv ops feature))))"

definition call :: "'f tf_ops \<Rightarrow> focnet \<Rightarrow> 'f \<Rightarrow> (error + 'f) option" where
  "call ops m inputs =
     (case call_states ops m inputs of
        None \<Rightarrow> None
      | Some (Inl e) \<Rightarrow> Some (Inl e)
      | Some (Inr st) \<Rightarrow> Some (final_projection ops m st))"

text \<open>The network with the default arguments of \<^verbatim>\<open>__init__\<close>, for a given \<open>beta\<close>.\<close>

definition default_focnet :: "rat \<Rightarrow> focnet" where
  "default_focnet b =
     \<lparr>n_scales = 4, n_filters = 128, kernel_size = 3,
      n_convs_per_scale = DEFAULT_N_CONVS_PER_SCALE,
      communications_between_scales = DEFAULT_COMMUNICATION_BETWEEN_SCALES, beta = b,
      needs_to_compute = build_needs_to_compute DEFAULT_COMMUNICATION_BETWEEN_SCALES Map.empty\<rparr>"

section \<open>Abstraction of the feature tensors\<close>

text \<open>
  The scheduler never inspects a feature. \<open>map_state h\<close> replaces every stored feature \<open>x\<close> by
  \<open>h x\<close>; \<open>ops_hom h ops ops'\<close> says that \<open>h\<close> commutes with the layers and the tensor
  arithmetic. \<open>unit_ops\<close> are the operations on the one-element type, where only the shape of
  the traversal is left.
\<close>

definition map_state :: "('f \<Rightarrow> 'g) \<Rightarrow> 'f state \<Rightarrow> 'g state" where
  "map_state h st =
     \<lparr>i_scale = i_scale st, i_feature = i_feature st,
      features_per_scale = map (map h) (features_per_scale st),
      iterations = iterations st, conv_calls = conv_calls st\<rparr>"

definition ops_hom :: "('f \<Rightarrow> 'g) \<Rightarrow> 'f tf_ops \<Rightarrow> 'g tf_ops \<Rightarrow> bool" where
  "ops_hom h ops ops' \<longleftrightarrow>
     (\<forall>x. h (first_conv ops x) = first_conv ops' (h x)) \<and>
     (\<forall>c x. h (conv_block ops c x) = conv_block ops' c (h x)) \<and>
     (\<forall>x. h (final_conv ops x) = final_conv ops' (h x)) \<and>
     (\<forall>x. h (pooling ops x) = pooling ops' (h x)) \<and>
     (\<forall>x. h (unpooling ops x) = unpooling ops' (h x)) \<and>
     (\<forall>x y. h (tf_concat ops x y) = tf_concat ops' (h x) (h y)) \<and>
     (\<forall>x y. h (tf_add ops x y) = tf_add ops' (h x) (h y)) \<and>
     (\<forall>w x. h (tf_mul ops w x) = tf_mul ops' w (h x))"

definition unit_ops :: "unit tf_ops" where
  "unit_ops = \<lparr>first_conv = (\<lambda>_. ()), conv_block = (\<lambda>_ _. ()), final_conv = (\<lambda>_. ()),
     pooling = (\<lambda>_. ()), unpooling = (\<lambda>_. ()), tf_concat = (\<lambda>_ _. ()), tf_add = (\<lambda>_ _. ()),
     tf_mul = (\<lambda>_ _. ())\<rparr>"

section \<open>The traversal of the default network\<close>

text \<open>
  The state in which \<^verbatim>\<open>call\<close> enters the loop when the network has four scales, and a name
  for what the residual loop makes of a block output at step 0, where
  \<open>zip(weights, features_per_scale[i_scale])\<close> is the one pair of \<open>beta\<close> and the first stored
  feature \<open>x\<close>.
\<close>

definition start_state :: "'f \<Rightarrow> 'f state" where
  "start_state stem =
     \<lparr>i_scale = 0, i_feature = 0, features_per_scale = [[stem], [], [], []],
      iterations = 0, conv_calls = []\<rparr>"

definition step0_feature :: "'f tf_ops \<Rightarrow> rat \<Rightarrow> nat \<times> nat \<Rightarrow> 'f \<Rightarrow> 'f \<Rightarrow> 'f" where
  "step0_feature ops b block feature x =
     tf_add ops (conv_block ops block feature) (tf_mul ops b x)"

text \<open>
  The default network after seven passes through the loop body: it has computed step 0 of
  scale 0, jumped down three times and computed step 0 of the scales 1, 2 and 3.
\<close>

definition state_after_7 :: "'f tf_ops \<Rightarrow> rat \<Rightarrow> 'f \<Rightarrow> 'f state" where
  "state_after_7 ops b stem =
    (let f00 = step0_feature ops b (0, 0) stem stem;
         p1 = pooling ops f00;
         f10 = step0_feature ops b (1, 0) p1 p1;
         p2 = pooling ops f10;
         f20 = step0_feature ops b (2, 0) p2 p2;
         p3 = pooling ops f20;
         f30 = step0_feature ops b (3, 0) p3 p3
     in \<lparr>i_scale = 3, i_feature = 1,
         features_per_scale = [[stem, f00], [p1, f10], [p2, f20], [p3, f30]],
         iterations = 7,
         conv_calls = [((0, 0), 0, 0, 1), ((1, 0), 1, 0, 1), ((2, 0), 2, 0, 1), ((3, 0), 3, 0, 1)]\<rparr>)"

text \<open>
  The traversal of the default network when the loop is left, features blanked out: the
  coordinates, the lengths of the four stores, the number of passes and the log of the
  block invocations.
\<close>

definition default_skeleton :: "unit state" where
  "default_skeleton =
     \<lparr>i_scale = 0, i_feature = 5,
      features_per_scale =
        [[(), (), (), (), (), ()],
         [(), (), (), (), (), (), (), (), (), (), (), ()],
         [(), (), (), (), (), (), (), (), (), (), (), ()],
         [(), (), (), (), (), (), (), ()]],
      iterations = 55,
      conv_calls =
        [((0, 0), 0, 0, 1), ((1, 0), 1, 0, 1), ((2, 0), 2, 0, 1),
         ((3, 0), 3, 0, 1), ((3, 1), 3, 1, 2), ((2, 1), 2, 1, 2),
         ((2, 2), 2, 2, 3), ((1, 1), 1, 1, 2), ((1, 2), 1, 2, 3),
         ((0, 1), 0, 1, 2), ((1, 3), 1, 3, 4), ((2, 3), 2, 3, 4),
         ((3, 2), 3, 2, 3), ((3, 3), 3, 3, 4), ((2, 4), 2, 4, 5),
         ((2, 5), 2, 5, 6), ((1, 4), 1, 4, 5), ((1, 5), 1, 5, 6),
         ((0, 2), 0, 2, 3), ((1, 6), 1, 6, 7), ((2, 6), 2, 6, 7),
         ((3, 4), 3, 4, 5), ((3, 5), 3, 5, 6), ((2, 7), 2, 7, 8),
         ((2, 8), 2, 8, 9), ((1, 7), 1, 7, 8), ((1, 8), 1, 8, 9),
         ((0, 3), 0, 3, 4), ((1, 9), 1, 9, 10), ((2, 9), 2, 9, 10),
         ((3, 6), 3, 6, 7), ((2, 10), 2, 10, 11), ((1, 10), 1, 10, 11),
         ((0, 4), 0, 4, 5)]\<rparr>"

text \<open>
  A small concrete instance of the operations: a feature is a single rational number, every
  block doubles its input, pooling and unpooling leave it alone, concatenation and addition
  add, and the scalar product multiplies.
\<close>

definition rat_ops :: "rat tf_ops" where
  "rat_ops = \<lparr>first_conv = (\<lambda>x. x), conv_block = (\<lambda>_ x. 2 * x), final_conv = (\<lambda>x. x),
     pooling = (\<lambda>x. x), unpooling = (\<lambda>x. x), tf_concat = (\<lambda>x y. x + y), tf_add = (\<lambda>x y. x + y),
     tf_mul = (\<lambda>w x. w * x)\<rparr>"

section \<open>The data flow of the traversal\<close>

text \<open>
  Which tensors a stored feature is made of is read off a run on symbolic features: terms
  built from the operations over variables \<open>Var s i\<close>, where \<open>Var s i\<close> stands for the feature
  stored at index \<open>i\<close> of scale \<open>s\<close>. \<open>sym_value ops V\<close> interprets a term with the operations
  \<open>ops\<close> and the features \<open>V s i\<close> for the variables.
\<close>

datatype sym =
    Var nat nat
  | FirstConv sym
  | Conv "nat \<times> nat" sym
  | FinalConv sym
  | Pool sym
  | Unpool sym
  | Cat sym sym
  | Add sym sym
  | Mul rat sym

definition sym_ops :: "sym tf_ops" where
  "sym_ops = \<lparr>first_conv = FirstConv, conv_block = Conv, final_conv = FinalConv,
     pooling = Pool, unpooling = Unpool, tf_concat = Cat, tf_add = Add, tf_mul = Mul\<rparr>"

primrec sym_value :: "'f tf_ops \<Rightarrow> (nat \<Rightarrow> nat \<Rightarrow> 'f) \<Rightarrow> sym \<Rightarrow> 'f" where
  "sym_value ops V (Var s i) = V s i"
| "sym_value ops V (FirstConv x) = first_conv ops (sym_value ops V x)"
| "sym_value ops V (Conv c x) = conv_block ops c (sym_value ops V x)"
| "sym_value ops V (FinalConv x) = final_conv ops (sym_value ops V x)"
| "sym_value ops V (Pool x) = pooling ops (sym_value ops V x)"
| "sym_value ops V (Unpool x) = unpooling ops (sym_value ops V x)"
| "sym_value ops V (Cat x y) = tf_concat ops (sym_value ops V x) (sym_value ops V y)"
| "sym_value ops V (Add x y) = tf_add ops (sym_value ops V x) (sym_value ops V y)"
| "sym_value ops V (Mul w x) = tf_mul ops w (sym_value ops V x)"

text \<open>
  \<open>sym_stores n m st\<close> runs the loop on symbolic features for at most \<open>n\<close> passes and lists
  the stores after each pass. Before the next pass every stored term is replaced by the
  variable of its position, so that each listed store shows the features appended by one
  pass as terms over the features stored before.
\<close>

definition var_store :: "nat list \<Rightarrow> sym list list" where
  "var_store lens = map (\<lambda>(s, n). map (Var s) [0..<n]) (enumerate 0 lens)"

definition rename_stored :: "sym state \<Rightarrow> sym state" where
  "rename_stored st = st\<lparr>features_per_scale := var_store (map length (features_per_scale st))\<rparr>"

fun sym_stores :: "nat \<Rightarrow> focnet \<Rightarrow> sym state \<Rightarrow> sym list list list" where
  "sym_stores 0 m st = []"
| "sym_stores (Suc n) m st =
     (case loop_cond m st of
        Inl e \<Rightarrow> []
      | Inr go_on \<Rightarrow>
          if go_on then
            (case loop_body sym_ops m st of
               Inl e \<Rightarrow> []
             | Inr st' \<Rightarrow> features_per_scale st' # sym_stores n m (rename_stored st'))
          else [])"

text \<open>
  The term expected for the feature that the block of coordinate \<open>(s, t)\<close> contributes. Its
  input is the stored feature of index \<open>t\<close>, concatenated with the resampled dependency
  feature when the coordinate has one; at step 0 of a scale below scale 0 the store is
  still empty, and the resampled dependency feature is both the first entry of the store and
  the input of the block.
\<close>

definition dep_sym :: "focnet \<Rightarrow> nat \<Rightarrow> nat \<Rightarrow> sym option" where
  "dep_sym m s t =
     (case needs_to_compute m (int s, int t) of
        None \<Rightarrow> None
      | Some (s2, f2) \<Rightarrow>
          Some ((if s2 > int s then Unpool else Pool) (Var (nat s2) (nat f2))))"

definition input_sym :: "focnet \<Rightarrow> nat \<Rightarrow> nat \<Rightarrow> sym" where
  "input_sym m s t =
     (case dep_sym m s t of
        None \<Rightarrow> Var s t
      | Some r \<Rightarrow> if t = 0 \<and> 0 < s then r else Cat (Var s t) r)"

definition store_sym :: "focnet \<Rightarrow> nat \<Rightarrow> nat \<Rightarrow> sym list" where
  "store_sym m s t =
     (if t = 0 \<and> 0 < s then (case dep_sym m s t of None \<Rightarrow> [] | Some r \<Rightarrow> [r])
      else map (Var s) [0..<t + 1])"

definition expected_sym :: "focnet \<Rightarrow> nat \<times> nat \<Rightarrow> nat \<Rightarrow> nat \<Rightarrow> sym" where
  "expected_sym m block s t =
     fold (\<lambda>(weight, res_feature) acc. Add acc (Mul weight res_feature))
          (zip (residual_weights_computation (int t) (beta m)) (store_sym m s t))
          (Conv block (input_sym m s t))"

text \<open>
  The same on the features themselves, read from a store \<open>fps\<close>:
  \<open>block_input ops m fps s t\<close> is the input of the block of coordinate \<open>(s, t)\<close>, with the
  dependency feature taken from the store at its coordinate, and
  \<open>stored_feature_ok ops m fps block s t\<close> says that the feature of index \<open>t + 1\<close> of scale
  \<open>s\<close> is the output of \<open>block\<close> on that input plus the weighted stored features that
  \<open>zip(weights, features_per_scale[s])\<close> pairs up.
\<close>

definition block_input :: "'f tf_ops \<Rightarrow> focnet \<Rightarrow> 'f list list \<Rightarrow> nat \<Rightarrow> nat \<Rightarrow> 'f" where
  "block_input ops m fps s t =
     (case needs_to_compute m (int s, int t) of
        None \<Rightarrow> fps ! s ! t
      | Some (s2, f2) \<Rightarrow>
          let additional_feature = fps ! nat s2 ! nat f2;
              additional_feature_processed =
                (if s2 > int s then unpooling ops additional_feature
                 else pooling ops additional_feature)
          in if t = 0 \<and> 0 < s then additional_feature_processed
             else tf_concat ops (fps ! s ! t) additional_feature_processed)"

definition stored_feature_ok ::
  "'f tf_ops \<Rightarrow> focnet \<Rightarrow> 'f list list \<Rightarrow> nat \<times> nat \<Rightarrow> nat \<Rightarrow> nat \<Rightarrow> bool" where
  "stored_feature_ok ops m fps block s t \<longleftrightarrow>
     fps ! s ! (t + 1) =
       fold (\<lambda>(weight, res_feature) acc. tf_add ops acc (tf_mul ops weight res_feature))
            (zip (residual_weights_computation (int t) (beta m)) (fps ! s))
            (conv_block ops block (block_input ops m fps s t))"

section \<open>Shapes\<close>







section \<open>Valid configurations\<close>




section \<open>Residual weights: the recursion\<close>

lemma fold_weight_step_length:
  "length (fold (weight_step t b) ks w) = length w + length ks"
  by (induction ks arbitrary: w) (simp_all add: weight_step_def)





section \<open>Residual weights: the values of the specification\<close>

text \<open>
  Claim C4, as the specification states it, fails: the weights of step 3 for \<open>beta = 0.2\<close> are
  not \<open>[0.004, -0.02, 0.2]\<close>.
\<close>

theorem residual_weights_values_counterexample:
  "residual_weights_computation 3 (1 / 5) \<noteq> [1 / 250, - (1 / 50), 1 / 5]"
  by code_simp

text \<open>
  Claim C4, amended. \<open>residual_weights_computation 1 0.2 = [0.2]\<close>, and
  \<open>residual_weights_computation 3 0.2 = [0.048, 0.08, 0.2]\<close> as exact rationals: the recursion
  gives \<open>w2 = 0.2\<close>, \<open>w1 = (1 - 1.2/2) * 0.2 = 0.08\<close> and \<open>w0 = (1 - 1.2/3) * 0.08 = 0.048\<close>.
\<close>

theorem residual_weights_values:
  "residual_weights_computation 1 (1 / 5) = [1 / 5]
   \<and> residual_weights_computation 3 (1 / 5) = [6 / 125, 2 / 25, 1 / 5]"
  by code_simp

section \<open>The dependency mapping: code and reference construction\<close>

lemma upd_map_add_snoc: "m(k \<mapsto> v) ++ map_of xs = m ++ map_of (xs @ [(k, v)])"
  by (rule ext) (simp add: map_add_def split: option.splits)

lemma scale_communication_loop_map_of:
  "scale_communication_loop s l (even n) m =
     m ++ map_of (rev (map (\<lambda>(j, p). dependency_edge s j p) (enumerate n l)))"
proof (induction l arbitrary: n m)
  case Nil
  then show ?case by simp
next
  case (Cons p l)
  obtain u d where p: "p = (u, d)" by (cases p)
  obtain k v where e: "dependency_edge s n p = (k, v)" by (cases "dependency_edge s n p")
  have step: "scale_communication_loop s (p # l) (even n) m =
      scale_communication_loop s l (even (Suc n)) (m(k \<mapsto> v))"
    using e by (auto simp add: p dependency_edge_def Let_def split: if_splits)
  show ?case
    unfolding step Cons.IH upd_map_add_snoc
    by (simp add: e)
qed

lemma fold_scales_map_of:
  "fold (\<lambda>(i_scale, sc). scale_communication_loop (int i_scale) sc True) (enumerate n cs) m =
   m ++ map_of (rev (concat (map (\<lambda>(s, l). map (\<lambda>(j, p). dependency_edge (int s) j p) (enumerate 0 l))
                 (enumerate n cs))))"
proof (induction cs arbitrary: n m)
  case Nil
  then show ?case by simp
next
  case (Cons c cs)
  have "scale_communication_loop (int n) c True m =
      m ++ map_of (rev (map (\<lambda>(j, p). dependency_edge (int n) j p) (enumerate 0 c)))"
    using scale_communication_loop_map_of [of "int n" c 0 m] by simp
  then show ?case
    by (simp add: Cons.IH)
qed

text \<open>
  Claim C5. For every adjacency table, the mapping that \<open>build_needs_to_compute\<close> builds from
  the empty dictionary is the reference construction: the pairs at even positions of the list
  between scales \<open>s\<close> and \<open>s+1\<close> (direction downscale, the first one included) record
  \<open>(s+1, step_lower) \<rightarrow> (s, step_upper)\<close>, the pairs at odd positions record
  \<open>(s, step_upper) \<rightarrow> (s+1, step_lower)\<close>, a later record replacing an earlier one for the same
  coordinate.
\<close>

theorem build_needs_to_compute_reference:
  "build_needs_to_compute communications Map.empty = dependency_graph communications"
  by (simp add: build_needs_to_compute_def dependency_graph_def dependency_edges_def
      fold_scales_map_of)

section \<open>The traversal does not depend on the feature values\<close>

lemma ebind_simps [simp]: "ebind (Inl e) f = Inl e" "ebind (Inr x) f = f x"
  by (simp_all add: ebind_def)

lemma ebind_map_sum: "ebind (map_sum id f r) g = ebind r (\<lambda>x. g (f x))"
  by (cases r) simp_all

lemma map_sum_ebind: "map_sum id f (ebind r g) = ebind r (\<lambda>x. map_sum id f (g x))"
  by (cases r) simp_all

lemma py_index_map: "py_index (map f xs) i = map_sum id f (py_index xs i)"
  by (auto simp: py_index_def py_norm_def split: option.splits)

lemma py_norm_less: "py_norm n i = Some j \<Longrightarrow> j < n"
  by (auto simp: py_norm_def split: if_splits)

lemma list_append_at_map:
  "list_append_at (map (map h) xss) i (h x) = map_sum id (map (map h)) (list_append_at xss i x)"
  by (auto simp: list_append_at_def map_update dest: py_norm_less split: option.splits)

lemma map_state_sel [simp]:
  "i_scale (map_state h st) = i_scale st"
  "i_feature (map_state h st) = i_feature st"
  "features_per_scale (map_state h st) = map (map h) (features_per_scale st)"
  "iterations (map_state h st) = iterations st"
  "conv_calls (map_state h st) = conv_calls st"
  by (simp_all add: map_state_def)

lemma map_state_upd:
  "(map_state h st)\<lparr>i_scale := a\<rparr> = map_state h (st\<lparr>i_scale := a\<rparr>)"
  "(map_state h st)\<lparr>i_feature := b\<rparr> = map_state h (st\<lparr>i_feature := b\<rparr>)"
  "(map_state h st)\<lparr>iterations := c\<rparr> = map_state h (st\<lparr>iterations := c\<rparr>)"
  "(map_state h st)\<lparr>conv_calls := d\<rparr> = map_state h (st\<lparr>conv_calls := d\<rparr>)"
  "(map_state h st)\<lparr>features_per_scale := map (map h) fps\<rparr> = map_state h (st\<lparr>features_per_scale := fps\<rparr>)"
  by (simp_all add: map_state_def)

lemma residual_sum_hom:
  assumes "ops_hom h ops ops'"
  shows "h (fold (\<lambda>(weight, res_feature) acc. tf_add ops acc (tf_mul ops weight res_feature)) (zip ws fs) x)
       = fold (\<lambda>(weight, res_feature) acc. tf_add ops' acc (tf_mul ops' weight res_feature)) (zip ws (map h fs)) (h x)"
  using assms
proof (induction ws arbitrary: fs x)
  case Nil
  then show ?case by simp
next
  case (Cons w ws)
  then show ?case
    by (cases fs) (simp_all add: ops_hom_def)
qed

lemma compute_feature_hom:
  assumes "ops_hom h ops ops'"
  shows "compute_feature ops' m (map_state h st) (h x) = map_sum id (map_state h) (compute_feature ops m st x)"
proof -
  have cb: "conv_block ops' c (h y) = h (conv_block ops c y)" for c y
    using assms unfolding ops_hom_def by (cases c) auto
  show ?thesis
    unfolding compute_feature_def
    by (simp add: py_index_map ebind_map_sum map_sum_ebind Let_def cb py_len_def
        residual_sum_hom [OF assms, symmetric] list_append_at_map map_state_upd)
qed

lemma overflow_check_hom:
  "overflow_check m (map_state h st) = map_sum id (map_state h) (overflow_check m st)"
  unfolding overflow_check_def
  by (simp add: py_index_map ebind_map_sum map_sum_ebind py_len_def map_state_upd if_distrib cong: if_cong)


lemma loop_cond_hom: "loop_cond m (map_state h st) = loop_cond m st"
  by (simp add: loop_cond_def)

lemma resolve_and_compute_hom:
  assumes "ops_hom h ops ops'"
  shows "resolve_and_compute ops' m (map_state h st) = map_sum id (map_state h) (resolve_and_compute ops m st)"
proof -
  have pool: "pooling ops' (h y) = h (pooling ops y)" "unpooling ops' (h y) = h (unpooling ops y)"
    and cat: "tf_concat ops' (h y) (h z) = h (tf_concat ops y z)" for y z
    using assms by (simp_all add: ops_hom_def)
  show ?thesis
  proof (cases "needs_to_compute m (i_scale st, i_feature st)")
    case None
    then show ?thesis
      unfolding resolve_and_compute_def
      by (simp add: py_index_map ebind_map_sum map_sum_ebind compute_feature_hom [OF assms])
  next
    case (Some node)
    obtain s2 f2 where node: "node = (s2, f2)" by (cases node)
    have up: "unpooling ops' (h y) = h (unpooling ops y)" for y by (rule pool)
    show ?thesis
      unfolding resolve_and_compute_def
      by (simp add: Some node py_index_map ebind_map_sum map_sum_ebind Let_def py_len_def pool cat
          list_append_at_map map_state_upd compute_feature_hom [OF assms]
          if_distrib [of "map_sum id (map_state h)"] if_distrib [of h, symmetric] cong: if_cong)
  qed
qed

lemma loop_body_hom:
  assumes "ops_hom h ops ops'"
  shows "loop_body ops' m (map_state h st) = map_sum id (map_state h) (loop_body ops m st)"
  unfolding loop_body_def
  by (simp add: map_state_upd overflow_check_hom ebind_map_sum map_sum_ebind
      resolve_and_compute_hom [OF assms])

lemma call_loop_upto_hom:
  assumes "ops_hom h ops ops'"
  shows "call_loop_upto n ops' m (map_state h st) =
         map_option (map_sum id (map_state h)) (call_loop_upto n ops m st)"
proof (induction n arbitrary: st)
  case 0
  then show ?case by simp
next
  case (Suc n)
  show ?case
    by (auto simp add: loop_cond_hom loop_body_hom [OF assms] Suc.IH split: sum.splits)
qed

lemma call_loop_upto_call_loop:
  "call_loop_upto n ops m st = Some r \<Longrightarrow> call_loop ops m st = Some r"
proof (induction n arbitrary: st)
  case 0
  then show ?case by simp
next
  case (Suc n)
  then show ?case
    by (subst call_loop.simps) (auto split: sum.splits if_splits)
qed

section \<open>The stores only grow\<close>

lemma list_append_at_extends:
  "list_append_at fps i x = Inr fps' \<Longrightarrow> list_all2 prefix fps fps'"
  by (auto simp: list_append_at_def list_all2_conv_all_nth nth_list_update
      dest: py_norm_less split: option.splits)

lemma list_all2_prefix_trans:
  "list_all2 prefix xs ys \<Longrightarrow> list_all2 prefix ys zs \<Longrightarrow> list_all2 prefix xs zs"
  by (rule list_all2_trans [where ?P1.0 = prefix and ?P2.0 = prefix]) auto

lemma list_all2_prefix_refl: "list_all2 prefix xs xs"
  by (simp add: list_all2_refl)

lemma compute_feature_extends:
  "compute_feature ops m st x = Inr st' \<Longrightarrow>
     list_all2 prefix (features_per_scale st) (features_per_scale st')"
  unfolding compute_feature_def ebind_def
  by (auto simp: Let_def dest: list_append_at_extends split: sum.splits)

lemma overflow_check_features:
  "overflow_check m st = Inr st' \<Longrightarrow> features_per_scale st' = features_per_scale st"
  unfolding overflow_check_def ebind_def
  by (auto split: sum.splits if_splits)

lemma resolve_and_compute_extends:
  "resolve_and_compute ops m st = Inr st' \<Longrightarrow>
     list_all2 prefix (features_per_scale st) (features_per_scale st')"
  unfolding resolve_and_compute_def ebind_def
  by (auto simp: Let_def list_all2_prefix_refl
      dest!: compute_feature_extends list_append_at_extends
      split: sum.splits option.splits if_splits)
     (blast intro: list_all2_prefix_trans)+

lemma loop_body_extends:
  "loop_body ops m st = Inr st' \<Longrightarrow>
     list_all2 prefix (features_per_scale st) (features_per_scale st')"
  unfolding loop_body_def ebind_def
  by (auto dest!: overflow_check_features resolve_and_compute_extends split: sum.splits)

lemma call_loop_upto_extends:
  "call_loop_upto n ops m st = Some (Inr st') \<Longrightarrow>
     list_all2 prefix (features_per_scale st) (features_per_scale st')"
proof (induction n arbitrary: st)
  case 0
  then show ?case by simp
next
  case (Suc n)
  then show ?case
    by (auto simp: list_all2_prefix_refl dest!: loop_body_extends
        split: sum.splits if_splits)
       (blast intro: list_all2_prefix_trans)+
qed

section \<open>The run of the default network\<close>

lemma initial_state_default:
  "initial_state ops (default_focnet b) inputs = Inr (start_state (first_conv ops inputs))"
  by (simp add: initial_state_def default_focnet_def list_append_at_def py_norm_def start_state_def
      numeral_eq_Suc)

lemma unit_run:
  "call_loop_upto 56 unit_ops (default_focnet b) (start_state ()) = Some (Inr default_skeleton)"
  by code_simp

lemma ops_hom_unit: "ops_hom (\<lambda>_. ()) ops unit_ops"
  by (simp add: ops_hom_def)

lemma default_run:
  "\<exists>st. call_loop_upto 56 ops (default_focnet b) (start_state (first_conv ops inputs)) = Some (Inr st)
      \<and> map_state (\<lambda>_. ()) st = default_skeleton"
proof -
  have "map_state (\<lambda>_. ()) (start_state (first_conv ops inputs)) = start_state ()"
    by (simp add: map_state_def start_state_def)
  then have "map_option (map_sum id (map_state (\<lambda>_. ())))
      (call_loop_upto 56 ops (default_focnet b) (start_state (first_conv ops inputs))) = Some (Inr default_skeleton)"
    using call_loop_upto_hom [OF ops_hom_unit [of ops], where n = 56 and m = "default_focnet b"
        and st = "start_state (first_conv ops inputs)"]
      unit_run [of b] by simp
  then obtain r where r: "call_loop_upto 56 ops (default_focnet b) (start_state (first_conv ops inputs)) = Some r"
      "map_sum id (map_state (\<lambda>_. ())) r = Inr default_skeleton"
    by auto
  then show ?thesis by (cases r) auto
qed

lemma needs_default:
  "needs_to_compute (default_focnet b) (0, 0) = None"
  "needs_to_compute (default_focnet b) (0, 1) = Some (1, 2)"
  "needs_to_compute (default_focnet b) (1, 0) = Some (0, 1)"
  "needs_to_compute (default_focnet b) (1, 1) = Some (2, 2)"
  "needs_to_compute (default_focnet b) (2, 0) = Some (1, 1)"
  "needs_to_compute (default_focnet b) (2, 1) = Some (3, 1)"
  "needs_to_compute (default_focnet b) (3, 0) = Some (2, 1)"
  by code_simp+

lemma blocks_default:
  "conv_blocks_per_scale (default_focnet b) =
    [[(0, 0), (0, 1), (0, 2), (0, 3), (0, 4)],
     [(1, 0), (1, 1), (1, 2), (1, 3), (1, 4), (1, 5), (1, 6), (1, 7), (1, 8), (1, 9), (1, 10)],
     [(2, 0), (2, 1), (2, 2), (2, 3), (2, 4), (2, 5), (2, 6), (2, 7), (2, 8), (2, 9), (2, 10)],
     [(3, 0), (3, 1), (3, 2), (3, 3), (3, 4), (3, 5), (3, 6)]]"
  by code_simp

lemma fields_default:
  "n_convs_per_scale (default_focnet b) = [5, 11, 11, 7]"
  "beta (default_focnet b) = b"
  by (simp_all add: default_focnet_def DEFAULT_N_CONVS_PER_SCALE_def)

lemma weights_0: "residual_weights_computation 0 b = [b]"
  by (simp add: residual_weights_computation_def)

lemma first_7:
  "call_loop_upto (Suc (Suc (Suc (Suc (Suc (Suc (Suc n))))))) ops (default_focnet b) (start_state stem) =
    call_loop_upto n ops (default_focnet b) (state_after_7 ops b stem)"
  by (simp add: loop_cond_def loop_body_def start_state_def overflow_check_def
      resolve_and_compute_def compute_feature_def needs_default blocks_default fields_default
      weights_0 py_index_def py_len_def list_append_at_def py_norm_def state_after_7_def
      step0_feature_def Let_def eval_nat_numeral)

lemma default_call_states:
  "\<exists>st. call_states ops (default_focnet b) inputs = Some (Inr st)
      \<and> map_state (\<lambda>_. ()) st = default_skeleton
      \<and> list_all2 prefix (features_per_scale (state_after_7 ops b (first_conv ops inputs)))
           (features_per_scale st)"
proof -
  let ?m = "default_focnet b" and ?st0 = "start_state (first_conv ops inputs)"
  obtain st where run: "call_loop_upto 56 ops ?m ?st0 = Some (Inr st)"
    and skel: "map_state (\<lambda>_. ()) st = default_skeleton"
    using default_run [of ops b inputs] by blast
  have "(56::nat) = Suc (Suc (Suc (Suc (Suc (Suc (Suc 49))))))" by simp
  then have "call_loop_upto 49 ops ?m (state_after_7 ops b (first_conv ops inputs)) = Some (Inr st)"
    using run first_7 [of 49 ops b "first_conv ops inputs"] by simp
  then have ext: "list_all2 prefix (features_per_scale (state_after_7 ops b (first_conv ops inputs)))
           (features_per_scale st)"
    by (rule call_loop_upto_extends)
  have "call_loop ops ?m ?st0 = Some (Inr st)"
    using run by (rule call_loop_upto_call_loop)
  then have "call_states ops ?m inputs = Some (Inr st)"
    by (simp add: call_states_def initial_state_default)
  with skel ext show ?thesis by blast
qed

lemma skeleton_fields:
  assumes "map_state (\<lambda>_. ()) st = default_skeleton"
  shows "i_scale st = 0" "i_feature st = 5" "iterations st = 55"
    "conv_calls st = conv_calls default_skeleton"
    "map length (features_per_scale st) = [6, 12, 12, 8]"
proof -
  show "i_scale st = 0" using arg_cong [OF assms, of i_scale] by (simp add: default_skeleton_def)
  show "i_feature st = 5" using arg_cong [OF assms, of i_feature] by (simp add: default_skeleton_def)
  show "iterations st = 55" using arg_cong [OF assms, of iterations] by (simp add: default_skeleton_def)
  show "conv_calls st = conv_calls default_skeleton" using arg_cong [OF assms, of conv_calls] by simp
  have "map length (map (map (\<lambda>_. ())) (features_per_scale st)) = [6, 12, 12, 8]"
    using arg_cong [OF assms, of features_per_scale] by (simp add: default_skeleton_def)
  then show "map length (features_per_scale st) = [6, 12, 12, 8]"
    by (simp add: comp_def)
qed

lemma store_lengths:
  assumes "map length (fps :: 'a list list) = [6, 12, 12, 8]"
  shows "length fps = 4" "length (fps ! 0) = 6" "length (fps ! 1) = 12" "length (fps ! 2) = 12"
    "length (fps ! 3) = 8"
proof -
  obtain a b c d where fps: "fps = [a, b, c, d]"
    using assms by (auto simp: map_eq_Cons_conv)
  show "length fps = 4" "length (fps ! 0) = 6" "length (fps ! 1) = 12" "length (fps ! 2) = 12"
    "length (fps ! 3) = 8"
    using assms by (simp_all add: fps)
qed

lemma prefix_two: "prefix [a, b] xs \<Longrightarrow> xs ! 0 = a \<and> xs ! 1 = b"
  by (auto simp: prefix_def)

lemma default_first_features:
  assumes "list_all2 prefix (features_per_scale (state_after_7 ops b stem)) fps"
  shows "fps ! 0 ! 0 = stem"
    "fps ! 0 ! 1 = step0_feature ops b (0, 0) stem stem"
    "fps ! 1 ! 0 = pooling ops (fps ! 0 ! 1)"
    "fps ! 1 ! 1 = step0_feature ops b (1, 0) (fps ! 1 ! 0) (fps ! 1 ! 0)"
    "fps ! 2 ! 0 = pooling ops (fps ! 1 ! 1)"
    "fps ! 2 ! 1 = step0_feature ops b (2, 0) (fps ! 2 ! 0) (fps ! 2 ! 0)"
    "fps ! 3 ! 0 = pooling ops (fps ! 2 ! 1)"
    "fps ! 3 ! 1 = step0_feature ops b (3, 0) (fps ! 3 ! 0) (fps ! 3 ! 0)"
proof -
  define f00 where "f00 = step0_feature ops b (0, 0) stem stem"
  define p1 where "p1 = pooling ops f00"
  define f10 where "f10 = step0_feature ops b (1, 0) p1 p1"
  define p2 where "p2 = pooling ops f10"
  define f20 where "f20 = step0_feature ops b (2, 0) p2 p2"
  define p3 where "p3 = pooling ops f20"
  define f30 where "f30 = step0_feature ops b (3, 0) p3 p3"
  have st7: "features_per_scale (state_after_7 ops b stem) =
      [[stem, f00], [p1, f10], [p2, f20], [p3, f30]]"
    by (simp add: state_after_7_def Let_def f00_def p1_def f10_def p2_def f20_def p3_def f30_def)
  obtain a0 a1 a2 a3 where fps: "fps = [a0, a1, a2, a3]"
    and p: "prefix [stem, f00] a0" "prefix [p1, f10] a1" "prefix [p2, f20] a2" "prefix [p3, f30] a3"
    using assms unfolding st7 by (auto simp: list_all2_Cons1)
  note e = prefix_two [OF p(1)] prefix_two [OF p(2)] prefix_two [OF p(3)] prefix_two [OF p(4)]
  show "fps ! 0 ! 0 = stem" using e by (simp add: fps)
  show "fps ! 0 ! 1 = step0_feature ops b (0, 0) stem stem" using e by (simp add: fps f00_def)
  show "fps ! 1 ! 0 = pooling ops (fps ! 0 ! 1)" using e by (simp add: fps p1_def)
  show "fps ! 1 ! 1 = step0_feature ops b (1, 0) (fps ! 1 ! 0) (fps ! 1 ! 0)"
    using e by (simp add: fps f10_def)
  show "fps ! 2 ! 0 = pooling ops (fps ! 1 ! 1)" using e by (simp add: fps p2_def)
  show "fps ! 2 ! 1 = step0_feature ops b (2, 0) (fps ! 2 ! 0) (fps ! 2 ! 0)"
    using e by (simp add: fps f20_def)
  show "fps ! 3 ! 0 = pooling ops (fps ! 2 ! 1)" using e by (simp add: fps p3_def)
  show "fps ! 3 ! 1 = step0_feature ops b (3, 0) (fps ! 3 ! 0) (fps ! 3 ! 0)"
    using e by (simp add: fps f30_def)
qed

lemma default_edges_in_range:
  assumes "map length (fps :: 'a list list) = [6, 12, 12, 8]"
  shows "list_all (\<lambda>(node, s2, f2). 0 \<le> s2 \<and> 0 \<le> f2 \<and> f2 < py_len (fps ! nat s2))
           (dependency_edges DEFAULT_COMMUNICATION_BETWEEN_SCALES)"
proof -
  have e: "list_all (\<lambda>(node, s2, f2). 0 \<le> s2 \<and> 0 \<le> f2 \<and> f2 < int ([6, 12, 12, 8] ! nat s2))
           (dependency_edges DEFAULT_COMMUNICATION_BETWEEN_SCALES)"
    by code_simp
  have "list_all (\<lambda>(node, s2, f2). s2 < 4) (dependency_edges DEFAULT_COMMUNICATION_BETWEEN_SCALES)"
    by code_simp
  with e have "list_all (\<lambda>(node, s2, f2). 0 \<le> s2 \<and> s2 < 4 \<and> 0 \<le> f2 \<and> f2 < int ([6, 12, 12, 8] ! nat s2))
           (dependency_edges DEFAULT_COMMUNICATION_BETWEEN_SCALES)"
    by (auto simp: list_all_iff)
  moreover have "int ([6, 12, 12, 8] ! nat s2) = py_len (fps ! nat s2)" if "0 \<le> s2" "s2 < 4" for s2
  proof -
    have "nat s2 < length fps" using that store_lengths(1) [OF assms] by simp
    then have "map length fps ! nat s2 = length (fps ! nat s2)" by simp
    then show ?thesis by (simp add: assms py_len_def)
  qed
  ultimately show ?thesis
    by (auto simp: list_all_iff)
qed

lemma py_index_append_at:
  assumes "py_index fps i = Inr fs"
  shows "\<exists>fps'. list_append_at fps i x = Inr fps' \<and> py_index fps' i = Inr (fs @ [x])"
  using assms
  by (auto simp: py_index_def list_append_at_def dest: py_norm_less split: option.splits)



section \<open>The data flow of the default run\<close>

lemma ops_hom_sym_value: "ops_hom (sym_value ops V) sym_ops ops"
  by (simp add: ops_hom_def sym_ops_def)

lemma var_store_value:
  assumes "list_all2 prefix X F"
  shows "map (map (sym_value ops (\<lambda>s i. F ! s ! i))) (var_store (map length X)) = X"
proof (rule nth_equalityI)
  show "length (map (map (sym_value ops (\<lambda>s i. F ! s ! i))) (var_store (map length X))) = length X"
    by (simp add: var_store_def)
next
  fix s assume "s < length (map (map (sym_value ops (\<lambda>s i. F ! s ! i))) (var_store (map length X)))"
  then have s: "s < length X" by (simp add: var_store_def)
  then have "prefix (X ! s) (F ! s)" using assms by (simp add: list_all2_nthD)
  then obtain zs where F: "F ! s = X ! s @ zs" by (auto simp: prefix_def)
  have "map (sym_value ops (\<lambda>s i. F ! s ! i)) (map (Var s) [0..<length (X ! s)]) = X ! s"
    by (rule nth_equalityI) (simp_all add: F nth_append)
  then show "map (map (sym_value ops (\<lambda>s i. F ! s ! i))) (var_store (map length X)) ! s = X ! s"
    using s by (simp add: var_store_def nth_enumerate_eq)
qed

lemma sym_stores_sound:
  assumes "call_loop_upto n ops m st = Some (Inr st_f)"
    and "st = map_state (sym_value ops (\<lambda>s i. features_per_scale st_f ! s ! i)) A"
  shows "\<forall>E \<in> set (sym_stores n m A).
           list_all2 prefix (map (map (sym_value ops (\<lambda>s i. features_per_scale st_f ! s ! i))) E)
             (features_per_scale st_f)"
  using assms
proof (induction n arbitrary: st A)
  case 0
  then show ?case by simp
next
  case (Suc n)
  let ?h = "sym_value ops (\<lambda>s i. features_per_scale st_f ! s ! i)"
  have cond: "loop_cond m st = loop_cond m A"
    by (simp add: Suc.prems(2) loop_cond_hom)
  have body: "loop_body ops m st = map_sum id (map_state ?h) (loop_body sym_ops m A)"
    unfolding Suc.prems(2) by (rule loop_body_hom [OF ops_hom_sym_value])
  show ?case
  proof (cases "loop_cond m A")
    case (Inl e)
    then show ?thesis by simp
  next
    case (Inr go_on)
    show ?thesis
    proof (cases go_on)
      case False
      then show ?thesis using Inr by simp
    next
      case True
      show ?thesis
      proof (cases "loop_body sym_ops m A")
        case (Inl e)
        then show ?thesis using Inr True by simp
      next
        case B: (Inr B)
        let ?st1 = "map_state ?h B"
        have run: "call_loop_upto n ops m ?st1 = Some (Inr st_f)"
          using Suc.prems(1) by (simp add: cond Inr True body B)
        then have ext: "list_all2 prefix (features_per_scale ?st1) (features_per_scale st_f)"
          by (rule call_loop_upto_extends)
        have "map (map ?h) (var_store (map length (features_per_scale ?st1))) = features_per_scale ?st1"
          using ext by (rule var_store_value)
        then have st1: "?st1 = map_state ?h (rename_stored B)"
          by (simp add: map_state_def rename_stored_def comp_def)
        have rest: "\<forall>E \<in> set (sym_stores n m (rename_stored B)).
           list_all2 prefix (map (map ?h) E) (features_per_scale st_f)"
          by (rule Suc.IH [OF run st1])
        show ?thesis
          using ext rest by (simp add: Inr True B)
      qed
    qed
  qed
qed

lemma default_sym_features:
  "list_all (\<lambda>(block, s, t, n).
       list_ex (\<lambda>E. nat s < length E \<and> nat t + 1 < length (E ! nat s)
                  \<and> E ! nat s ! (nat t + 1) = expected_sym (default_focnet b) block (nat s) (nat t))
         (sym_stores 56 (default_focnet b) (start_state (Var 0 0))))
     (conv_calls default_skeleton)"
  by code_simp

lemma call_states_upto:
  assumes "call_loop_upto n ops (default_focnet b) (start_state (first_conv ops inputs)) = Some r"
  shows "call_states ops (default_focnet b) inputs = Some r"
  using call_loop_upto_call_loop [OF assms]
  by (simp add: call_states_def initial_state_default)

lemma zip_take_shorter: "length ws \<le> n \<Longrightarrow> zip ws (take n fs) = zip ws fs"
proof (induction ws arbitrary: n fs)
  case Nil
  then show ?case by simp
next
  case (Cons w ws)
  then obtain n' where n: "n = Suc n'" by (cases n) auto
  show ?case
  proof (cases fs)
    case Nil
    then show ?thesis by simp
  next
    case fs: (Cons f fs')
    show ?thesis using Cons.IH [of n' fs'] Cons.prems by (simp add: n fs)
  qed
qed

lemma residual_weights_length: "length (residual_weights_computation (int t) b) \<le> t + 1"
  by (simp add: residual_weights_computation_def fold_weight_step_length)

lemma input_sym_value:
  "sym_value ops (\<lambda>s i. fps ! s ! i) (input_sym m s t) = block_input ops m fps s t"
  by (auto simp: input_sym_def dep_sym_def block_input_def Let_def split: option.splits)

lemma expected_sym_value:
  assumes len: "t + 1 \<le> length (fps ! s)"
    and first: "t = 0 \<and> 0 < s \<longrightarrow>
       (\<exists>r. dep_sym m s t = Some r \<and> sym_value ops (\<lambda>s i. fps ! s ! i) r = fps ! s ! 0)"
  shows "sym_value ops (\<lambda>s i. fps ! s ! i) (expected_sym m block s t) =
       fold (\<lambda>(weight, res_feature) acc. tf_add ops acc (tf_mul ops weight res_feature))
            (zip (residual_weights_computation (int t) (beta m)) (fps ! s))
            (conv_block ops block (block_input ops m fps s t))"
proof -
  let ?h = "sym_value ops (\<lambda>s i. fps ! s ! i)"
  let ?ws = "residual_weights_computation (int t) (beta m)"
  have store: "map ?h (store_sym m s t) = take (t + 1) (fps ! s)"
  proof (cases "t = 0 \<and> 0 < s")
    case True
    then obtain r where r: "dep_sym m s t = Some r" "?h r = fps ! s ! 0"
      using first by blast
    have "take 1 (fps ! s) = [fps ! s ! 0]"
      using len by (cases "fps ! s") auto
    then show ?thesis using True r by (simp add: store_sym_def)
  next
    case False
    have "map ?h (map (Var s) [0..<t + 1]) = take (t + 1) (fps ! s)"
      using len by (intro nth_equalityI) (auto simp del: upt_Suc)
    moreover have "store_sym m s t = map (Var s) [0..<t + 1]"
      using False by (auto simp: store_sym_def)
    ultimately show ?thesis by simp
  qed
  have "?h (expected_sym m block s t) =
      fold (\<lambda>(weight, res_feature) acc. tf_add ops acc (tf_mul ops weight res_feature))
           (zip ?ws (map ?h (store_sym m s t))) (?h (Conv block (input_sym m s t)))"
    using residual_sum_hom [OF ops_hom_sym_value, of ops "\<lambda>s i. fps ! s ! i" ?ws "store_sym m s t"
        "Conv block (input_sym m s t)"]
    by (simp add: expected_sym_def sym_ops_def)
  also have "zip ?ws (map ?h (store_sym m s t)) = zip ?ws (fps ! s)"
    unfolding store by (rule zip_take_shorter) (rule residual_weights_length)
  finally show ?thesis by (simp add: input_sym_value)
qed

lemma prefix_stores_nth:
  assumes "list_all2 prefix (map (map h) E) F" "s < length E" "i < length (E ! s)"
  shows "F ! s ! i = h (E ! s ! i)" "i < length (F ! s)"
proof -
  have "prefix (map h (E ! s)) (F ! s)"
    using assms(1,2) list_all2_nthD [OF assms(1), of s] by simp
  then obtain zs where "F ! s = map h (E ! s) @ zs" by (auto simp: prefix_def)
  then show "F ! s ! i = h (E ! s ! i)" "i < length (F ! s)"
    using assms(3) by (simp_all add: nth_append)
qed

lemma default_first_deps:
  "list_all (\<lambda>(block, s, t, n). nat t = 0 \<and> 0 < nat s \<longrightarrow>
       nat s < 4 \<and> dep_sym (default_focnet b) (nat s) (nat t) = Some (Pool (Var (nat s - 1) 1)))
     (conv_calls default_skeleton)"
  by code_simp

lemma default_dataflow:
  "\<exists>st. call_states ops (default_focnet b) inputs = Some (Inr st)
     \<and> conv_calls st = conv_calls default_skeleton
     \<and> list_all (\<lambda>(block, s, t, n).
          stored_feature_ok ops (default_focnet b) (features_per_scale st) block (nat s) (nat t))
         (conv_calls st)"
proof -
  let ?m = "default_focnet b" and ?stem = "first_conv ops inputs"
  obtain st where run: "call_loop_upto 56 ops ?m (start_state ?stem) = Some (Inr st)"
    and skel: "map_state (\<lambda>_. ()) st = default_skeleton"
    using default_run [of ops b inputs] by blast
  have cs: "call_states ops ?m inputs = Some (Inr st)"
    using run by (rule call_states_upto)
  have calls: "conv_calls st = conv_calls default_skeleton"
    by (rule skeleton_fields(4) [OF skel])
  let ?fps = "features_per_scale st"
  let ?h = "sym_value ops (\<lambda>s i. ?fps ! s ! i)"
  have "(56::nat) = Suc (Suc (Suc (Suc (Suc (Suc (Suc 49))))))" by simp
  then have "call_loop_upto 49 ops ?m (state_after_7 ops b ?stem) = Some (Inr st)"
    using run first_7 [of 49 ops b ?stem] by simp
  then have ext: "list_all2 prefix (features_per_scale (state_after_7 ops b ?stem)) ?fps"
    by (rule call_loop_upto_extends)
  note ff = default_first_features [OF ext]
  have start: "start_state ?stem = map_state ?h (start_state (Var 0 0))"
    by (simp add: map_state_def start_state_def ff(1))
  have sound: "\<forall>E \<in> set (sym_stores 56 ?m (start_state (Var 0 0))).
      list_all2 prefix (map (map ?h) E) ?fps"
    by (rule sym_stores_sound [OF run start])
  have firsts: "pooling ops (?fps ! (s - 1) ! 1) = ?fps ! s ! 0" if "0 < s" "s < 4" for s
  proof -
    from that have "s = 1 \<or> s = 2 \<or> s = 3" by auto
    then show ?thesis using ff(3) ff(5) ff(7) by auto
  qed
  have "stored_feature_ok ops ?m ?fps block (nat s) (nat t)"
    if mem: "(block, s, t, n) \<in> set (conv_calls default_skeleton)" for block s t n
  proof -
    from default_sym_features [of b] mem obtain E where E: "E \<in> set (sym_stores 56 ?m (start_state (Var 0 0)))"
      and r: "nat s < length E" "nat t + 1 < length (E ! nat s)"
      and eq: "E ! nat s ! (nat t + 1) = expected_sym ?m block (nat s) (nat t)"
      by (auto simp: list_all_iff list_ex_iff)
    from sound E have p: "list_all2 prefix (map (map ?h) E) ?fps" by blast
    note nth = prefix_stores_nth [OF p r]
    have len: "nat t + 1 \<le> length (?fps ! nat s)" using nth(2) by simp
    have first: "nat t = 0 \<and> 0 < nat s \<longrightarrow>
       (\<exists>r. dep_sym ?m (nat s) (nat t) = Some r \<and> ?h r = ?fps ! nat s ! 0)"
    proof
      assume a: "nat t = 0 \<and> 0 < nat s"
      with default_first_deps [of b] mem have s4: "nat s < 4"
        and d: "dep_sym ?m (nat s) (nat t) = Some (Pool (Var (nat s - 1) 1))"
        by (auto simp: list_all_iff)
      have "?h (Pool (Var (nat s - 1) 1)) = ?fps ! nat s ! 0"
        using firsts [of "nat s"] a s4 by simp
      with d show "\<exists>r. dep_sym ?m (nat s) (nat t) = Some r \<and> ?h r = ?fps ! nat s ! 0"
        by blast
    qed
    show ?thesis
      unfolding stored_feature_ok_def nth(1) eq
      by (rule expected_sym_value [OF len first])
  qed
  then have "list_all (\<lambda>(block, s, t, n).
          stored_feature_ok ops ?m ?fps block (nat s) (nat t)) (conv_calls st)"
    unfolding calls by (auto simp: list_all_iff)
  with cs calls show ?thesis by blast
qed

section \<open>Shapes of the stored features\<close>









section \<open>Termination of the default traversal\<close>

text \<open>
  Claim C6. For the default configuration, whatever the layers, the input and \<open>beta\<close> are, the
  loop of \<open>call\<close> is left without an exception, at scale 0 with
  \<open>i_feature = n_convs_per_scale[0]\<close>, after exactly 55 passes through the loop body: one for
  each of the \<open>5 + 11 + 11 + 7 = 34\<close> blocks and 21 passes that end in a jump.
\<close>

theorem default_scheduler_terminates:
  "\<exists>st. call_states ops (default_focnet b) inputs = Some (Inr st)
     \<and> i_scale st = 0
     \<and> py_index (n_convs_per_scale (default_focnet b)) 0 = Inr (i_feature st)
     \<and> iterations st = 55
     \<and> int (length (conv_calls st)) = sum_list DEFAULT_N_CONVS_PER_SCALE
     \<and> iterations st = length (conv_calls st) + 21"
proof -
  obtain st where st: "call_states ops (default_focnet b) inputs = Some (Inr st)"
    and skel: "map_state (\<lambda>_. ()) st = default_skeleton"
    using default_call_states [of ops b inputs] by blast
  note f = skeleton_fields [OF skel]
  have len: "length (conv_calls st) = 34"
    by (simp add: f(4) default_skeleton_def)
  have "py_index (n_convs_per_scale (default_focnet b)) 0 = Inr (i_feature st)"
    by (simp add: f(2) fields_default py_index_def py_norm_def)
  moreover have "int (length (conv_calls st)) = sum_list DEFAULT_N_CONVS_PER_SCALE"
    by (simp add: len DEFAULT_N_CONVS_PER_SCALE_def)
  ultimately show ?thesis
    using st f(1) f(3) len by auto
qed

theorem default_scheduler_terminates_witness:
  "\<exists>st. call_states unit_ops (default_focnet (1 / 5)) () = Some (Inr st) \<and> iterations st = 55"
  using default_scheduler_terminates [of unit_ops "1 / 5" "()"] by blast

section \<open>The feature that is projected\<close>

text \<open>
  Claim C8. For the default configuration, when the loop is left the store of scale 0 holds
  \<open>n_convs_per_scale[0] + 1\<close> features, so that the feature at index \<open>n_convs_per_scale[0]\<close>
  is the last one (index \<open>-1\<close>), and the result of \<open>call\<close> is \<open>final_conv\<close> applied to exactly
  that feature.
\<close>

theorem final_feature_is_last:
  "\<exists>st fs n0. call_states ops (default_focnet b) inputs = Some (Inr st)
     \<and> py_index (features_per_scale st) 0 = Inr fs
     \<and> py_index (n_convs_per_scale (default_focnet b)) 0 = Inr n0
     \<and> py_len fs = n0 + 1
     \<and> py_index fs n0 = Inr (last fs)
     \<and> py_index fs (- 1) = Inr (last fs)
     \<and> call ops (default_focnet b) inputs = Some (Inr (final_conv ops (last fs)))"
proof -
  obtain st where st: "call_states ops (default_focnet b) inputs = Some (Inr st)"
    and skel: "map_state (\<lambda>_. ()) st = default_skeleton"
    using default_call_states [of ops b inputs] by blast
  note l = store_lengths [OF skeleton_fields(5) [OF skel]]
  let ?fs = "features_per_scale st ! 0"
  have ne: "?fs \<noteq> []" using l(2) by auto
  have a: "py_index (features_per_scale st) 0 = Inr ?fs"
    by (simp add: py_index_def py_norm_def l(1))
  have b: "py_index (n_convs_per_scale (default_focnet b)) 0 = Inr 5"
    by (simp add: fields_default py_index_def py_norm_def)
  have c: "py_len ?fs = 5 + 1" by (simp add: py_len_def l(2))
  have d: "py_index ?fs 5 = Inr (last ?fs)"
    using ne by (simp add: py_index_def py_norm_def l(2) last_conv_nth)
  have e: "py_index ?fs (- 1) = Inr (last ?fs)"
    using ne by (simp add: py_index_def py_norm_def l(2) last_conv_nth)
  have "call ops (default_focnet b) inputs = Some (Inr (final_conv ops (last ?fs)))"
    by (simp add: call_def st final_projection_def a b d)
  with st a b c d e show ?thesis by blast
qed

theorem final_feature_is_last_witness:
  "\<exists>fs. call unit_ops (default_focnet (1 / 5)) () = Some (Inr (final_conv unit_ops (last fs)))"
  using final_feature_is_last [of unit_ops "1 / 5" "()"] by blast

section \<open>The offset between steps and store indices\<close>

text \<open>
  Claim C10. For the default configuration the run ends without an \<open>IndexError\<close>, and
  whenever a block is invoked for the coordinate \<open>(i_scale, i_feature)\<close>, both non-negative
  and naming that very block, the store \<open>features_per_scale[i_scale]\<close> holds exactly
  \<open>i_feature + 1\<close> entries. Index 0 of the store of scale 0 is the stem; index 0 of the store
  of every other scale is the pooled feature of index 1 of the scale above, its first
  resampled dependency. Every source coordinate of the default dependency table, those with
  a step equal to \<open>n_convs_per_scale\<close> of their scale included, is an index of the final
  store of its scale.
\<close>

theorem store_offset_invariant:
  "\<exists>st. call_states ops (default_focnet b) inputs = Some (Inr st)
     \<and> list_all (\<lambda>(block, s, t, n). n = t + 1 \<and> 0 \<le> s \<and> 0 \<le> t \<and> block = (nat s, nat t))
          (conv_calls st)
     \<and> features_per_scale st ! 0 ! 0 = first_conv ops inputs
     \<and> features_per_scale st ! 1 ! 0 = pooling ops (features_per_scale st ! 0 ! 1)
     \<and> features_per_scale st ! 2 ! 0 = pooling ops (features_per_scale st ! 1 ! 1)
     \<and> features_per_scale st ! 3 ! 0 = pooling ops (features_per_scale st ! 2 ! 1)
     \<and> list_all (\<lambda>(node, s2, f2). 0 \<le> s2 \<and> 0 \<le> f2 \<and> f2 < py_len (features_per_scale st ! nat s2))
          (dependency_edges DEFAULT_COMMUNICATION_BETWEEN_SCALES)"
proof -
  obtain st where st: "call_states ops (default_focnet b) inputs = Some (Inr st)"
    and skel: "map_state (\<lambda>_. ()) st = default_skeleton"
    and ext: "list_all2 prefix (features_per_scale (state_after_7 ops b (first_conv ops inputs)))
           (features_per_scale st)"
    using default_call_states [of ops b inputs] by blast
  have "list_all (\<lambda>(block, s, t, n). n = t + 1 \<and> 0 \<le> s \<and> 0 \<le> t \<and> block = (nat s, nat t))
          (conv_calls default_skeleton)"
    by code_simp
  then have calls: "list_all (\<lambda>(block, s, t, n). n = t + 1 \<and> 0 \<le> s \<and> 0 \<le> t \<and> block = (nat s, nat t))
          (conv_calls st)"
    by (simp add: skeleton_fields(4) [OF skel])
  note ff = default_first_features [OF ext]
  note rng = default_edges_in_range [OF skeleton_fields(5) [OF skel]]
  from st calls ff(1) ff(3) ff(5) ff(7) rng show ?thesis by blast
qed

theorem store_offset_invariant_witness:
  "\<exists>st. call_states unit_ops (default_focnet (1 / 5)) () = Some (Inr st)
     \<and> list_all (\<lambda>(block, s, t, n). n = t + 1 \<and> 0 \<le> s \<and> 0 \<le> t \<and> block = (nat s, nat t))
          (conv_calls st)"
  using store_offset_invariant [of unit_ops "1 / 5" "()"] by blast

section \<open>The residual term at step 0\<close>

text \<open>
  Claim C1, as the specification states it, fails: \<open>residual_weights_computation 0 beta\<close> is
  not empty, and the feature materialized at step 0 need not be the raw block output. With
  \<open>beta = 1/5\<close>, a stem of value 1 and blocks that double their input, the first pass of the
  default network stores \<open>2 + 1/5 * 1 = 11/5\<close>, where the block returned 2.
\<close>

theorem step0_residual_counterexample:
  "residual_weights_computation 0 (1 / 5) = [1 / 5]
   \<and> conv_block rat_ops (0, 0) 1 = 2
   \<and> map_sum id features_per_scale (loop_body rat_ops (default_focnet (1 / 5)) (start_state 1)) =
       Inr [[1, 11 / 5], [], [], []]"
  by code_simp

text \<open>
  Claim C1, amended. For step 0, \<open>residual_weights_computation 0 beta\<close> is the one-element
  list \<open>[beta]\<close>. Whenever a block is computed at step 0 on a store whose first entry is \<open>x\<close>,
  the feature that is appended is the block output plus \<open>beta * x\<close>. In the default run this
  is so at step 0 of every scale: \<open>x\<close> is the stem at scale 0 and the resampled dependency
  feature, which is also the input of the block, at the scales 1, 2 and 3.
\<close>

theorem step0_residual:
  "residual_weights_computation 0 b = [b]
   \<and> (\<forall>st x xs feature st'.
         i_feature st = 0
         \<and> py_index (features_per_scale st) (i_scale st) = Inr (x # xs)
         \<and> compute_feature ops m st feature = Inr st'
         \<longrightarrow> (\<exists>block. py_index (features_per_scale st') (i_scale st) =
               Inr ((x # xs) @ [step0_feature ops (beta m) block feature x])))
   \<and> (\<exists>st. call_states ops (default_focnet b) inputs = Some (Inr st)
         \<and> features_per_scale st ! 0 ! 1 =
             step0_feature ops b (0, 0) (first_conv ops inputs) (first_conv ops inputs)
         \<and> features_per_scale st ! 1 ! 1 =
             step0_feature ops b (1, 0) (features_per_scale st ! 1 ! 0) (features_per_scale st ! 1 ! 0)
         \<and> features_per_scale st ! 2 ! 1 =
             step0_feature ops b (2, 0) (features_per_scale st ! 2 ! 0) (features_per_scale st ! 2 ! 0)
         \<and> features_per_scale st ! 3 ! 1 =
             step0_feature ops b (3, 0) (features_per_scale st ! 3 ! 0) (features_per_scale st ! 3 ! 0))"
proof (intro conjI allI impI)
  show "residual_weights_computation 0 b = [b]" by (rule weights_0)
next
  fix st :: "'a state" and x xs feature st'
  assume a: "i_feature st = 0
         \<and> py_index (features_per_scale st) (i_scale st) = Inr (x # xs)
         \<and> compute_feature ops m st feature = Inr st'"
  then have t0: "i_feature st = 0"
    and idx: "py_index (features_per_scale st) (i_scale st) = Inr (x # xs)"
    and cf: "compute_feature ops m st feature = Inr st'" by simp_all
  from cf obtain blocks block where
    "py_index (conv_blocks_per_scale m) (i_scale st) = Inr blocks"
    "py_index blocks (i_feature st) = Inr block"
    unfolding compute_feature_def ebind_def by (auto split: sum.splits)
  note bl = this
  have bl0: "py_index blocks 0 = Inr block" using bl(2) t0 by simp
  let ?new = "step0_feature ops (beta m) block feature x"
  obtain fps' where app: "list_append_at (features_per_scale st) (i_scale st) ?new = Inr fps'"
    and idx': "py_index fps' (i_scale st) = Inr ((x # xs) @ [?new])"
    using py_index_append_at [OF idx, of ?new] by blast
  have "features_per_scale st' = fps'"
    using cf unfolding compute_feature_def
    by (auto simp: bl bl0 idx t0 weights_0 Let_def app [unfolded step0_feature_def])
  with idx' show "\<exists>block. py_index (features_per_scale st') (i_scale st) =
               Inr ((x # xs) @ [step0_feature ops (beta m) block feature x])"
    by blast
next
  obtain st where st: "call_states ops (default_focnet b) inputs = Some (Inr st)"
    and ext: "list_all2 prefix (features_per_scale (state_after_7 ops b (first_conv ops inputs)))
           (features_per_scale st)"
    using default_call_states [of ops b inputs] by blast
  note ff = default_first_features [OF ext]
  from st ff(2) ff(4) ff(6) ff(8)
  show "\<exists>st. call_states ops (default_focnet b) inputs = Some (Inr st)
         \<and> features_per_scale st ! 0 ! 1 =
             step0_feature ops b (0, 0) (first_conv ops inputs) (first_conv ops inputs)
         \<and> features_per_scale st ! 1 ! 1 =
             step0_feature ops b (1, 0) (features_per_scale st ! 1 ! 0) (features_per_scale st ! 1 ! 0)
         \<and> features_per_scale st ! 2 ! 1 =
             step0_feature ops b (2, 0) (features_per_scale st ! 2 ! 0) (features_per_scale st ! 2 ! 0)
         \<and> features_per_scale st ! 3 ! 1 =
             step0_feature ops b (3, 0) (features_per_scale st ! 3 ! 0) (features_per_scale st ! 3 ! 0)"
    by blast
qed

theorem step0_residual_witness:
  "i_feature (start_state (1::rat)) = 0
   \<and> py_index (features_per_scale (start_state (1::rat))) (i_scale (start_state (1::rat))) = Inr [1]
   \<and> compute_feature rat_ops (default_focnet (1 / 5)) (start_state 1) 1 =
        Inr \<lparr>i_scale = 0, i_feature = 1, features_per_scale = [[1, 11 / 5], [], [], []],
             iterations = 0, conv_calls = [((0, 0), 0, 0, 1)]\<rparr>
   \<and> py_index [[1, 11 / 5], [], [], []] 0 = Inr [1, step0_feature rat_ops (1 / 5) (0, 0) 1 1]
   \<and> (\<exists>block. py_index [[1, 11 / 5], [], [], []] 0 = Inr ([1] @ [step0_feature rat_ops (1 / 5) block 1 1]))"
proof -
  let ?st = "start_state (1::rat)" and ?m = "default_focnet (1 / 5)"
  let ?st' = "\<lparr>i_scale = 0, i_feature = 1, features_per_scale = [[1, 11 / 5], [], [], []],
             iterations = 0, conv_calls = [((0, 0), 0, 0, 1)]\<rparr> :: rat state"
  have h1: "i_feature ?st = 0" by code_simp
  have h2: "py_index (features_per_scale ?st) (i_scale ?st) = Inr (1 # [])" by code_simp
  have h3: "compute_feature rat_ops ?m ?st 1 = Inr ?st'" by code_simp
  have h4: "py_index [[1, 11 / 5], [], [], []] 0 = Inr [1, step0_feature rat_ops (1 / 5) (0, 0) 1 1]"
    by code_simp
  from step0_residual [of "1 / 5" rat_ops ?m]
  have "\<forall>st x xs feature st'.
         i_feature st = 0
         \<and> py_index (features_per_scale st) (i_scale st) = Inr (x # xs)
         \<and> compute_feature rat_ops ?m st feature = Inr st'
         \<longrightarrow> (\<exists>block. py_index (features_per_scale st') (i_scale st) =
               Inr ((x # xs) @ [step0_feature rat_ops (beta ?m) block feature x]))"
    by blast
  then have "i_feature ?st = 0
         \<and> py_index (features_per_scale ?st) (i_scale ?st) = Inr (1 # [])
         \<and> compute_feature rat_ops ?m ?st 1 = Inr ?st'
         \<longrightarrow> (\<exists>block. py_index (features_per_scale ?st') (i_scale ?st) =
               Inr ((1 # []) @ [step0_feature rat_ops (beta ?m) block 1 1]))"
    by blast
  with h1 h2 h3 have "\<exists>block. py_index (features_per_scale ?st') (i_scale ?st) =
               Inr ((1 # []) @ [step0_feature rat_ops (beta ?m) block 1 1])"
    by blast
  then have "\<exists>block. py_index [[1, 11 / 5], [], [], []] 0 = Inr ([1] @ [step0_feature rat_ops (1 / 5) block 1 1])"
    by (simp add: start_state_def fields_default)
  with h1 h2 h3 h4 show ?thesis by simp
qed

section \<open>Construction\<close>

text \<open>
  Claim C2, as the specification states it, fails: construction succeeds when
  \<open>len(n_convs_per_scale) \<noteq> n_scales\<close> (two entries for four scales), when
  \<open>len(communications_between_scales) \<noteq> n_scales - 1\<close> (no list for four scales), when a pair
  names step 5 of a scale that has one step, and when two coordinates depend on each other.
\<close>

theorem init_no_validation_counterexample:
  "\<not> isl (FocNet_init 4 128 3 [5, 11] DEFAULT_COMMUNICATION_BETWEEN_SCALES (1 / 5))
   \<and> \<not> isl (FocNet_init 4 128 3 DEFAULT_N_CONVS_PER_SCALE [] (1 / 5))
   \<and> \<not> isl (FocNet_init 2 128 3 [1, 1] [[(0, 0), (0, 5)]] (1 / 5))
   \<and> \<not> isl (FocNet_init 2 128 3 [1, 1] [[(0, 0), (0, 0)]] (1 / 5))"
  by (simp add: FocNet_init_def)

text \<open>
  Claim C2, amended. \<open>FocNet.__init__\<close> validates nothing and never fails: for all
  arguments it returns the network that stores them, with the dependency mapping of the
  reference construction for the given table.
\<close>

theorem init_never_fails:
  "FocNet_init ns nf ks ncs comms b =
     Inr \<lparr>n_scales = ns, n_filters = nf, kernel_size = ks, n_convs_per_scale = ncs,
          communications_between_scales = comms, beta = b,
          needs_to_compute = dependency_graph comms\<rparr>"
  by (simp add: FocNet_init_def build_needs_to_compute_def dependency_graph_def
      dependency_edges_def fold_scales_map_of)

section \<open>Every block is computed once\<close>

text \<open>
  Claim C7. In a forward pass of the default network no coordinate is computed twice: the
  log of the block invocations names every block instance at most once, every coordinate
  \<open>(i_scale, i_feature)\<close> at most once and always the block built for that coordinate; all
  \<open>5 + 11 + 11 + 7\<close> blocks are invoked; every stored feature apart from the first entry of
  each store belongs to one of these invocations, and it is the output of the block of its
  coordinate, applied once to the stored feature before it (concatenated with the resampled
  dependency feature, read from the store at its coordinate), plus the weighted stored
  features. A pass through the loop body, for any network, only appends to the stores: a
  feature, once stored, stays at its index unchanged, so a later lookup of a dependency reads
  the tensor stored then.
\<close>

theorem conv_blocks_invoked_once:
  "(\<exists>st. call_states ops (default_focnet b) inputs = Some (Inr st)
      \<and> distinct (map fst (conv_calls st))
      \<and> distinct (map (\<lambda>(block, s, t, n). (s, t)) (conv_calls st))
      \<and> map (\<lambda>(block, s, t, n). (int (fst block), int (snd block))) (conv_calls st) =
          map (\<lambda>(block, s, t, n). (s, t)) (conv_calls st)
      \<and> set (map fst (conv_calls st)) = set (concat (conv_blocks_per_scale (default_focnet b)))
      \<and> length (conv_calls st) = sum_list (map (\<lambda>fs. length fs - 1) (features_per_scale st))
      \<and> list_all (\<lambda>(block, s, t, n).
            stored_feature_ok ops (default_focnet b) (features_per_scale st) block (nat s) (nat t))
          (conv_calls st))
   \<and> (\<forall>st st'. loop_body ops m st = Inr st' \<longrightarrow>
          list_all2 prefix (features_per_scale st) (features_per_scale st'))"
proof (intro conjI allI impI)
  obtain st where st: "call_states ops (default_focnet b) inputs = Some (Inr st)"
    and calls: "conv_calls st = conv_calls default_skeleton"
    and flow: "list_all (\<lambda>(block, s, t, n).
            stored_feature_ok ops (default_focnet b) (features_per_scale st) block (nat s) (nat t))
          (conv_calls st)"
    using default_dataflow [of ops b inputs] by blast
  obtain st2 where st2: "call_states ops (default_focnet b) inputs = Some (Inr st2)"
    and skel2: "map_state (\<lambda>_. ()) st2 = default_skeleton"
    using default_call_states [of ops b inputs] by blast
  have skel: "map_state (\<lambda>_. ()) st = default_skeleton"
    using st st2 skel2 by simp
  have 1: "distinct (map fst (conv_calls default_skeleton))" by code_simp
  have 2: "distinct (map (\<lambda>(block, s, t, n). (s, t)) (conv_calls default_skeleton))" by code_simp
  have 3: "map (\<lambda>(block, s, t, n). (int (fst block), int (snd block))) (conv_calls default_skeleton) =
          map (\<lambda>(block, s, t, n). (s, t)) (conv_calls default_skeleton)" by code_simp
  have 4: "set (map fst (conv_calls default_skeleton)) = set (concat (conv_blocks_per_scale (default_focnet b)))"
    by code_simp
  have "map (\<lambda>fs. length fs - 1) (features_per_scale st) =
      map (\<lambda>n. n - 1) (map length (features_per_scale st))"
    by (simp add: comp_def)
  then have 5: "length (conv_calls st) = sum_list (map (\<lambda>fs. length fs - 1) (features_per_scale st))"
    unfolding skeleton_fields(5) [OF skel] calls
    by (simp add: default_skeleton_def)
  from st 1 2 3 4 5 calls flow
  show "\<exists>st. call_states ops (default_focnet b) inputs = Some (Inr st)
      \<and> distinct (map fst (conv_calls st))
      \<and> distinct (map (\<lambda>(block, s, t, n). (s, t)) (conv_calls st))
      \<and> map (\<lambda>(block, s, t, n). (int (fst block), int (snd block))) (conv_calls st) =
          map (\<lambda>(block, s, t, n). (s, t)) (conv_calls st)
      \<and> set (map fst (conv_calls st)) = set (concat (conv_blocks_per_scale (default_focnet b)))
      \<and> length (conv_calls st) = sum_list (map (\<lambda>fs. length fs - 1) (features_per_scale st))
      \<and> list_all (\<lambda>(block, s, t, n).
            stored_feature_ok ops (default_focnet b) (features_per_scale st) block (nat s) (nat t))
          (conv_calls st)"
    by auto
next
  fix st st' :: "'a state"
  assume "loop_body ops m st = Inr st'"
  then show "list_all2 prefix (features_per_scale st) (features_per_scale st')"
    by (rule loop_body_extends)
qed

theorem conv_blocks_invoked_once_witness:
  "loop_body rat_ops (default_focnet (1 / 5)) (start_state 1) =
     Inr \<lparr>i_scale = 0, i_feature = 1, features_per_scale = [[1, 11 / 5], [], [], []],
          iterations = 1, conv_calls = [((0, 0), 0, 0, 1)]\<rparr>
   \<and> list_all2 prefix [[1], [], [], []] [[1, 11 / 5 :: rat], [], [], []]
   \<and> (\<exists>st. call_states rat_ops (default_focnet (1 / 5)) 1 = Some (Inr st)
         \<and> distinct (map fst (conv_calls st))
         \<and> list_all (\<lambda>(block, s, t, n).
              stored_feature_ok rat_ops (default_focnet (1 / 5)) (features_per_scale st) block (nat s) (nat t))
            (conv_calls st))"
proof -
  let ?st' = "\<lparr>i_scale = 0, i_feature = 1, features_per_scale = [[1, 11 / 5], [], [], []],
          iterations = 1, conv_calls = [((0, 0), 0, 0, 1)]\<rparr> :: rat state"
  note t = conv_blocks_invoked_once [of rat_ops "1 / 5" 1 "default_focnet (1 / 5)"]
  have h: "loop_body rat_ops (default_focnet (1 / 5)) (start_state 1) = Inr ?st'"
    by code_simp
  from t have "loop_body rat_ops (default_focnet (1 / 5)) (start_state 1) = Inr ?st' \<longrightarrow>
      list_all2 prefix (features_per_scale (start_state (1::rat))) (features_per_scale ?st')"
    by blast
  with h have "list_all2 prefix [[1], [], [], []] [[1, 11 / 5 :: rat], [], [], []]"
    by (simp add: start_state_def)
  moreover from t have "\<exists>st. call_states rat_ops (default_focnet (1 / 5)) 1 = Some (Inr st)
         \<and> distinct (map fst (conv_calls st))
         \<and> list_all (\<lambda>(block, s, t, n).
              stored_feature_ok rat_ops (default_focnet (1 / 5)) (features_per_scale st) block (nat s) (nat t))
            (conv_calls st)"
    by blast
  ultimately show ?thesis using h by blast
qed

section \<open>The residual weights and the features they multiply\<close>




section \<open>The shape of the output\<close>




end
